theory Spec2Isabelle
  imports Main "HOL-Library.Sublist" "HOL-Library.Word"
begin

section \<open>Outcomes of a call\<close>

text \<open>
  A Go call either returns, panics, or never returns because it waits for a mutex that
  nobody releases. The model runs one call at a time, so a \<open>Lock()\<close> on a mutex
  that is held at entry is a call that never returns: \<open>Blocked\<close>.
\<close>

datatype 'a ret = Blocked | Panicked | Returned 'a

section \<open>AccessLock: the one-shot broadcast gate\<close>

text \<open>
  \<^verbatim>\<open>type AccessLock struct { C chan error; closed bool; mux sync.Mutex }\<close>

  The channel \<open>C\<close> is never sent on; the only thing that happens to it is \<open>close\<close>.
  Its state is therefore one bit, \<open>C_closed\<close>. Closing a closed channel panics in Go.
\<close>

record AccessLock =
  C_closed :: bool
  closed :: bool
  al_mux :: bool

datatype gate_event = CloseC

definition NewAccessLock :: AccessLock where
  "NewAccessLock = \<lparr>C_closed = False, closed = False, al_mux = False\<rparr>"

text \<open>
  \<^verbatim>\<open>
  func (al *AccessLock) Unlock() {
      al.mux.Lock()
      defer al.mux.Unlock()
      if !al.closed {
          close(al.C)
          al.closed = true
      }
  }
  \<close>
  The result is the outcome of the call, the gate afterwards, and the \<open>close\<close>
  operations that were carried out on the channel. The deferred unlock also runs when
  \<open>close\<close> panics.
\<close>

definition Unlock :: "AccessLock \<Rightarrow> unit ret \<times> AccessLock \<times> gate_event list" where
  "Unlock al =
     (if al_mux al then (Blocked, al, [])
      else if \<not> closed al then
        (if C_closed al then (Panicked, al, [])
         else (Returned (), al\<lparr>C_closed := True, closed := True\<rparr>, [CloseC]))
      else (Returned (), al, []))"

text \<open>\<open>Unlock_n n\<close>: \<open>n\<close> calls of \<open>Unlock\<close>, one after the other, on the same gate.\<close>

fun Unlock_n :: "nat \<Rightarrow> AccessLock \<Rightarrow> unit ret list \<times> AccessLock \<times> gate_event list" where
  "Unlock_n 0 al = ([], al, [])"
| "Unlock_n (Suc n) al =
     (case Unlock al of (r, al', evs) \<Rightarrow>
        (case Unlock_n n al' of (rs, al'', evs') \<Rightarrow> (r # rs, al'', evs @ evs')))"

definition released :: AccessLock where
  "released = \<lparr>C_closed = True, closed = True, al_mux = False\<rparr>"

section \<open>Telemetry records, SQL values and errors\<close>

text \<open>
  \<^verbatim>\<open>type StatRecord struct { Timestamp time.Time; ApiKey string; ...; Ads bool }\<close>

  \<open>time.Time\<close> is kept as an integer instant; the \<open>uint64\<close> fields are 64-bit words.
  The field \<open>Domain\<close> is primed because HOL has a constant of that name.
\<close>

record StatRecord =
  Timestamp :: int
  ApiKey :: string
  Client :: string
  BytesWritten :: "64 word"
  TTFB :: "64 word"
  Duration :: "64 word"
  Path :: string
  InfoHash :: string
  OriginalPath :: string
  SessionID :: string
  Domain' :: string
  Status :: "64 word"
  GroupedStatus :: "64 word"
  Edge :: string
  Source :: string
  Role :: string
  Ads :: bool

text \<open>The values bound to the placeholders of the insert statement.\<close>

datatype sqlval = VTime int | VStr string | VU64 "64 word" | VU8 "8 word"

text \<open>
  An error is either one produced by the provider or the driver (\<open>Cause\<close>), or the
  result of \<open>errors.Wrapf(err, msg)\<close>.
\<close>

datatype err = Cause string | Wrapf err string

section \<open>The store as seen by the writer\<close>

text \<open>
  The provider and the \<open>*sql.DB\<close> behind it are outside the repository. For one
  call of \<open>store\<close> they are a table of outcomes, one entry per operation the writer
  can carry out: \<open>None\<close> is success, \<open>Some e\<close> the error returned. The outcome of a
  statement execution may depend on the statement, and the outcome of an insert on the
  position of the record in the batch and on its row.
\<close>

record dbenv =
  get_err :: "err option"
  exec_err :: "string \<Rightarrow> err option"
  ping_err :: "err option"
  begin_err :: "err option"
  prepare_err :: "string \<Rightarrow> err option"
  stmt_exec_err :: "nat \<Rightarrow> sqlval list \<Rightarrow> err option"
  commit_err :: "err option"

text \<open>
  What a call did, in order: every operation on the provider, the handle, the
  transaction and the statement, with its outcome. \<open>EvMakeTable\<close> marks an entry
  into \<open>makeTable\<close>; \<open>EvWarn\<close> is the warning logged by the background flush. The
  two \<open>Infof\<close> lines of \<open>store\<close> are not recorded.
\<close>

datatype event =
    EvGet "err option"
  | EvMakeTable
  | EvExec string "err option"
  | EvPing "err option"
  | EvBegin "err option"
  | EvPrepare string "err option"
  | EvStmtExec "sqlval list" "err option"
  | EvCommit "err option"
  | EvStmtClose
  | EvWarn err

section \<open>Library functions used by the writer\<close>

definition nl :: string where
  "nl = [CHR 0x0A]"

definition tab :: string where
  "tab = [CHR 0x09]"

definition sq :: string where
  "sq = [CHR 0x27]"

text \<open>
  \<open>strings.TrimSpace\<close> on ASCII text: leading and trailing tab, line feed, vertical
  tab, form feed, carriage return and space are removed.
\<close>

definition isSpace :: "char \<Rightarrow> bool" where
  "isSpace c = (c = CHR 0x09 \<or> c = CHR 0x0A \<or> c = CHR 0x0B \<or> c = CHR 0x0C
                \<or> c = CHR 0x0D \<or> c = CHR 0x20)"

definition TrimSpace :: "string \<Rightarrow> string" where
  "TrimSpace s = rev (dropWhile isSpace (rev (dropWhile isSpace s)))"

text \<open>
  \<open>fmt.Sprintf\<close> restricted to the one verb the writer uses, \<open>%v\<close>, applied to
  string operands: each \<open>%v\<close> is replaced by the next operand. A verb without an
  operand prints \<open>%!v(MISSING)\<close>, as in Go.
\<close>

fun Sprintf :: "string \<Rightarrow> string list \<Rightarrow> string" where
  "Sprintf [] args = []"
| "Sprintf [c] args = [c]"
| "Sprintf (c # d # cs) args =
     (if c = CHR ''%'' \<and> d = CHR ''v'' then
        (case args of
           [] \<Rightarrow> ''%!v(MISSING)'' @ Sprintf cs []
         | a # as \<Rightarrow> a @ Sprintf cs as)
      else c # Sprintf (d # cs) args)"

section \<open>ClickHouse: the batch writer\<close>

text \<open>
  \<^verbatim>\<open>
  type ClickHouse struct {
      db DBProvider; batchSize int; batch []*StatRecord
      mux sync.Mutex; storeMux sync.Mutex; init sync.Once
      nodeName string; replicated bool
  }
  \<close>
  A mutex is the bit "held"; the \<open>sync.Once\<close> is the bit "has fired". The provider
  \<open>db\<close> is the \<open>dbenv\<close> argument of the operations that use it.
\<close>

record ClickHouse =
  batchSize :: int
  batch :: "StatRecord list"
  mux :: bool
  storeMux :: bool
  init :: bool
  nodeName :: string
  replicated :: bool


subsection \<open>makeTable\<close>

text \<open>The two raw string literals of \<open>makeTable\<close>, byte for byte.\<close>

definition create_format :: string where
  "create_format =
     nl @ tab @ tab @ ''CREATE TABLE IF NOT EXISTS %v ('' @
     nl @ tab @ tab @ tab @ ''timestamp      DateTime,'' @
     nl @ tab @ tab @ tab @ ''api_key        String,'' @
     nl @ tab @ tab @ tab @ ''client         String,'' @
     nl @ tab @ tab @ tab @ ''bytes_written  UInt64,'' @
     nl @ tab @ tab @ tab @ ''ttfb           UInt32,'' @
     nl @ tab @ tab @ tab @ ''duration       UInt32,'' @
     nl @ tab @ tab @ tab @ ''path           String,'' @
     nl @ tab @ tab @ tab @ ''infohash       String,'' @
     nl @ tab @ tab @ tab @ ''original_path  String,'' @
     nl @ tab @ tab @ tab @ ''session_id     String,'' @
     nl @ tab @ tab @ tab @ ''domain         String,'' @
     nl @ tab @ tab @ tab @ ''status         UInt16,'' @
     nl @ tab @ tab @ tab @ ''grouped_status UInt16,'' @
     nl @ tab @ tab @ tab @ ''edge           String,'' @
     nl @ tab @ tab @ tab @ ''source         String,'' @
     nl @ tab @ tab @ tab @ ''role           String,'' @
     nl @ tab @ tab @ tab @ ''ads            UInt8,'' @
     nl @ tab @ tab @ tab @ ''node           String'' @
     nl @ tab @ tab @ '') engine = %v'' @
     nl @ tab @ tab @ ''PARTITION BY toYYYYMM(timestamp)'' @
     nl @ tab @ tab @ ''ORDER BY (timestamp)'' @
     nl @ tab @ tab @ ''TTL timestamp + INTERVAL %v'' @
     nl @ tab"

definition distributed_format :: string where
  "distributed_format =
     nl @ tab @ tab @ tab @ ''CREATE TABLE IF NOT EXISTS %v_all on cluster '{cluster}' as %v'' @
     nl @ tab @ tab @ tab @ ''ENGINE = Distributed('{cluster}', default, %v, rand())'' @
     nl @ tab @ tab"

text \<open>
  \<^verbatim>\<open>
  func (s *ClickHouse) makeTable(db *sql.DB) error {
      table := "proxy_stat"; tableExpr := table
      engine := "MergeTree()"; ttl := "3 MONTH"
      if s.replicated {
          tableExpr += " on cluster '{cluster}'"
          engine = "ReplicatedMergeTree('/clickhouse/.../{table}', '{replica}')"
      }
      _, err := db.Exec(fmt.Sprintf(strings.TrimSpace(`...`), tableExpr, engine, ttl))
      if err != nil { return err }
      if s.replicated {
          _, err = db.Exec(fmt.Sprintf(strings.TrimSpace(`...`), table, table, table))
      }
      return err
  }
  \<close>
\<close>

definition tableExpr :: "ClickHouse \<Rightarrow> string" where
  "tableExpr s =
     (if replicated s then ''proxy_stat'' @ '' on cluster '{cluster}'' @ sq
      else ''proxy_stat'')"

definition engine :: "ClickHouse \<Rightarrow> string" where
  "engine s =
     (if replicated s then
        ''ReplicatedMergeTree('/clickhouse/{installation}/{cluster}/tables/{shard}/{database}/{table}', '{replica}')''
      else ''MergeTree()'')"

definition create_stmt :: "ClickHouse \<Rightarrow> string" where
  "create_stmt s = Sprintf (TrimSpace create_format) [tableExpr s, engine s, ''3 MONTH'']"

definition distributed_stmt :: string where
  "distributed_stmt =
     Sprintf (TrimSpace distributed_format) [''proxy_stat'', ''proxy_stat'', ''proxy_stat'']"

definition makeTable :: "ClickHouse \<Rightarrow> dbenv \<Rightarrow> err option \<times> event list" where
  "makeTable s env =
     (case exec_err env (create_stmt s) of
        Some e \<Rightarrow> (Some e, [EvMakeTable, EvExec (create_stmt s) (Some e)])
      | None \<Rightarrow>
          if replicated s then
            (exec_err env distributed_stmt,
             [EvMakeTable, EvExec (create_stmt s) None,
              EvExec distributed_stmt (exec_err env distributed_stmt)])
          else (None, [EvMakeTable, EvExec (create_stmt s) None]))"

subsection \<open>store\<close>

definition insert_format :: string where
  "insert_format =
     ''INSERT INTO %v (timestamp, api_key, client, bytes_written, ttfb,'' @
     nl @ tab @ tab @ ''duration, path, infohash, original_path, session_id, domain, status, grouped_status, edge,'' @
     nl @ tab @ tab @ ''source, role, ads, node) VALUES (?, ?, ?, ?, ?, ?, ?, ?, ?, ?, ?, ?, ?, ?, ?, ?, ?, ?)''"

definition insert_table :: "ClickHouse \<Rightarrow> string" where
  "insert_table s = (if replicated s then ''proxy_stat'' @ ''_all'' else ''proxy_stat'')"

definition insert_stmt :: "ClickHouse \<Rightarrow> string" where
  "insert_stmt s = Sprintf insert_format [insert_table s]"

text \<open>
  The operands of one \<open>stmt.Exec\<close>: the sixteen fields, then \<open>adsUInt\<close> (a \<open>uint8\<close>
  that is 0 unless \<open>r.Ads\<close>), then \<open>s.nodeName\<close>.
\<close>

definition adsUInt :: "StatRecord \<Rightarrow> 8 word" where
  "adsUInt r = (if Ads r then 1 else 0)"

definition row_of :: "ClickHouse \<Rightarrow> StatRecord \<Rightarrow> sqlval list" where
  "row_of s r =
     [VTime (Timestamp r), VStr (ApiKey r), VStr (Client r), VU64 (BytesWritten r),
      VU64 (TTFB r), VU64 (Duration r), VStr (Path r), VStr (InfoHash r),
      VStr (OriginalPath r), VStr (SessionID r), VStr (Domain' r), VU64 (Status r),
      VU64 (GroupedStatus r), VStr (Edge r), VStr (Source r), VStr (Role r),
      VU8 (adsUInt r), VStr (nodeName s)]"

text \<open>
  The loop \<open>for _, r := range sr\<close>: one \<open>stmt.Exec\<close> per record, stopping at the
  first error. \<open>i\<close> is the position of the next record in the batch.
\<close>

fun exec_rows :: "ClickHouse \<Rightarrow> dbenv \<Rightarrow> nat \<Rightarrow> StatRecord list \<Rightarrow> err option \<times> event list" where
  "exec_rows s env i [] = (None, [])"
| "exec_rows s env i (r # rs) =
     (case stmt_exec_err env i (row_of s r) of
        Some e \<Rightarrow> (Some e, [EvStmtExec (row_of s r) (Some e)])
      | None \<Rightarrow>
          (case exec_rows s env (Suc i) rs of
             (err, evs) \<Rightarrow> (err, EvStmtExec (row_of s r) None # evs)))"

text \<open>
  The deferred function of \<open>store\<close> releases \<open>storeMux\<close> on every return that comes
  after its \<open>defer\<close> statement.
\<close>

definition deferred :: "err option \<Rightarrow> ClickHouse \<Rightarrow> event list \<Rightarrow> err option ret \<times> ClickHouse \<times> event list" where
  "deferred r s evs = (Returned r, s\<lparr>storeMux := False\<rparr>, evs)"

text \<open>
  \<^verbatim>\<open>
  func (s *ClickHouse) store(sr []*StatRecord) error {
      s.storeMux.Lock()
      if len(sr) == 0 { return nil }
      defer func() { ...; s.storeMux.Unlock() }()
      db, err := s.db.Get()
      if err != nil { return errors.Wrapf(err, "Failed to get ClickHouse DB") }
      s.init.Do(func() { err = s.makeTable(db) })
      if err != nil { return errors.Wrapf(err, "Failed to create table") }
      err = db.Ping()
      if err != nil { return errors.Wrapf(err, "Failed to ping") }
      tx, err := db.Begin()
      if err != nil { return errors.Wrapf(err, "Failed to begin") }
      table := "proxy_stat"
      if s.replicated { table += "_all" }
      stmt, err := tx.Prepare(fmt.Sprintf(`INSERT INTO %v ...`, table))
      if err != nil { return errors.Wrapf(err, "Failed to prepare") }
      defer stmt.Close()
      for _, r := range sr { ...; _, err = stmt.Exec(...)
          if err != nil { return errors.Wrapf(err, "Failed to exec") } }
      err = tx.Commit()
      if err != nil { return errors.Wrapf(err, "Failed to commit") }
      return nil
  }
  \<close>
  The return on an empty batch comes before the \<open>defer\<close>: \<open>storeMux\<close> stays held.
  \<open>sync.Once\<close> counts a call as done whatever the function it ran returned.
\<close>

definition store :: "ClickHouse \<Rightarrow> dbenv \<Rightarrow> StatRecord list \<Rightarrow> err option ret \<times> ClickHouse \<times> event list" where
  "store s env sr =
     (if storeMux s then (Blocked, s, [])
      else if length sr = 0 then (Returned None, s\<lparr>storeMux := True\<rparr>, [])
      else
        (case get_err env of
           Some e \<Rightarrow>
             deferred (Some (Wrapf e ''Failed to get ClickHouse DB'')) (s\<lparr>storeMux := True\<rparr>)
               [EvGet (Some e)]
         | None \<Rightarrow>
            (case (if init s then (None, []) else makeTable s env) of (err, mk) \<Rightarrow>
              (let s1 = s\<lparr>storeMux := True, init := True\<rparr>; pre = EvGet None # mk in
               case err of
                 Some e \<Rightarrow> deferred (Some (Wrapf e ''Failed to create table'')) s1 pre
               | None \<Rightarrow>
                  (case ping_err env of
                     Some e \<Rightarrow>
                       deferred (Some (Wrapf e ''Failed to ping'')) s1 (pre @ [EvPing (Some e)])
                   | None \<Rightarrow>
                      (case begin_err env of
                         Some e \<Rightarrow>
                           deferred (Some (Wrapf e ''Failed to begin'')) s1
                             (pre @ [EvPing None, EvBegin (Some e)])
                       | None \<Rightarrow>
                          (case prepare_err env (insert_stmt s) of
                             Some e \<Rightarrow>
                               deferred (Some (Wrapf e ''Failed to prepare'')) s1
                                 (pre @ [EvPing None, EvBegin None,
                                         EvPrepare (insert_stmt s) (Some e)])
                           | None \<Rightarrow>
                              (let pre' = pre @ [EvPing None, EvBegin None,
                                                 EvPrepare (insert_stmt s) None] in
                               case exec_rows s env 0 sr of
                                 (Some e, xs) \<Rightarrow>
                                   deferred (Some (Wrapf e ''Failed to exec'')) s1
                                     (pre' @ xs @ [EvStmtClose])
                               | (None, xs) \<Rightarrow>
                                  (case commit_err env of
                                     Some e \<Rightarrow>
                                       deferred (Some (Wrapf e ''Failed to commit'')) s1
                                         (pre' @ xs @ [EvCommit (Some e), EvStmtClose])
                                   | None \<Rightarrow>
                                       deferred None s1
                                         (pre' @ xs @ [EvCommit None, EvStmtClose]))))))))))"


subsection \<open>Add, the background flush and Close\<close>

text \<open>
  \<^verbatim>\<open>
  func (s *ClickHouse) Add(sr *StatRecord) error {
      s.mux.Lock(); s.batch = append(s.batch, sr); s.mux.Unlock()
      if len(s.batch) >= s.batchSize {
          go func(b []*StatRecord) {
              err := s.store(b)
              if err != nil { logrus.WithError(err).Warn("Failed to store to ClickHouse") }
          }(s.batch)
          s.mux.Lock(); s.batch = make([]*StatRecord, 0, s.batchSize); s.mux.Unlock()
      }
      return nil
  }
  \<close>
  The third component of the result is the batch handed to the goroutine that
  \<open>Add\<close> starts, if it starts one. \<open>make\<close> panics for a negative capacity, with
  \<open>mux\<close> held.
\<close>

definition Add :: "ClickHouse \<Rightarrow> StatRecord \<Rightarrow> err option ret \<times> ClickHouse \<times> StatRecord list option" where
  "Add s sr =
     (if mux s then (Blocked, s, None)
      else
        (let s1 = s\<lparr>batch := batch s @ [sr]\<rparr> in
         if batchSize s1 \<le> int (length (batch s1)) then
           (if batchSize s1 < 0 then (Panicked, s1\<lparr>mux := True\<rparr>, Some (batch s1))
            else (Returned None, s1\<lparr>batch := []\<rparr>, Some (batch s1)))
         else (Returned None, s1, None)))"

text \<open>The body of the goroutine: \<open>store\<close>, and a warning in the log when it fails.\<close>

definition flush_goroutine :: "ClickHouse \<Rightarrow> dbenv \<Rightarrow> StatRecord list \<Rightarrow> unit ret \<times> ClickHouse \<times> event list" where
  "flush_goroutine s env b =
     (case store s env b of (r, s', evs) \<Rightarrow>
        (case r of
           Returned (Some e) \<Rightarrow> (Returned (), s', evs @ [EvWarn e])
         | Returned None \<Rightarrow> (Returned (), s', evs)
         | Blocked \<Rightarrow> (Blocked, s', evs)
         | Panicked \<Rightarrow> (Panicked, s', evs)))"

text \<open>
  \<^verbatim>\<open>
  func (s *ClickHouse) Close() {
      s.store(s.batch)
      s.batch = []*StatRecord{}
  }
  \<close>
  \<open>Close\<close> has no result: the value \<open>store\<close> returns is dropped.
\<close>

definition Close :: "ClickHouse \<Rightarrow> dbenv \<Rightarrow> unit ret \<times> ClickHouse \<times> event list" where
  "Close s env =
     (case store s env (batch s) of (r, s', evs) \<Rightarrow>
        (case r of
           Returned e \<Rightarrow> (Returned (), s'\<lparr>batch := []\<rparr>, evs)
         | Blocked \<Rightarrow> (Blocked, s', evs)
         | Panicked \<Rightarrow> (Panicked, s', evs)))"

section \<open>Runs of the writer\<close>


text \<open>
  \<open>flushes s fs\<close>: \<open>store\<close> is called once for each element of \<open>fs\<close>, a batch with
  the outcomes the store gives during that call, one call after the other (the
  calls are serialised by \<open>storeMux\<close>). A call that blocks does nothing. The result
  is the writer afterwards and everything the calls did.
\<close>

fun flushes :: "ClickHouse \<Rightarrow> (dbenv \<times> StatRecord list) list \<Rightarrow> ClickHouse \<times> event list" where
  "flushes s [] = (s, [])"
| "flushes s ((env, sr) # fs) =
     (case store s env sr of (r, s', evs) \<Rightarrow>
        (case flushes s' fs of (s'', evs') \<Rightarrow> (s'', evs @ evs')))"

text \<open>
  The rows a sequence of operations leaves committed, by the contract of
  \<open>database/sql\<close> transactions: the rows executed since the last successful
  \<open>Begin\<close> become durable at a successful \<open>Commit\<close>, and at no other point.
  The first argument is the buffer of the open transaction.
\<close>

fun committed_rows :: "sqlval list list \<Rightarrow> event list \<Rightarrow> sqlval list list" where
  "committed_rows buf [] = []"
| "committed_rows buf (EvBegin None # evs) = committed_rows [] evs"
| "committed_rows buf (EvStmtExec row None # evs) = committed_rows (buf @ [row]) evs"
| "committed_rows buf (EvCommit None # evs) = buf @ committed_rows [] evs"
| "committed_rows buf (ev # evs) = committed_rows buf evs"

text \<open>The rows of the inserts a sequence of operations attempted, whatever the outcome.\<close>

fun inserts :: "event list \<Rightarrow> sqlval list list" where
  "inserts [] = []"
| "inserts (EvStmtExec row r # evs) = row # inserts evs"
| "inserts (ev # evs) = inserts evs"


text \<open>The operations of \<open>makeTable\<close>.\<close>

fun is_ddl :: "event \<Rightarrow> bool" where
  "is_ddl EvMakeTable = True"
| "is_ddl (EvExec q r) = True"
| "is_ddl ev = False"


section \<open>Concrete inputs\<close>

text \<open>
  The record \<open>&StatRecord{}\<close> of the repository's test, a store on which every
  operation succeeds, a provider that cannot hand out a handle, a store that rejects
  the second insert of a batch, and a store that rejects every table creation.
\<close>

definition zero_record :: StatRecord where
  "zero_record =
     \<lparr>Timestamp = 0, ApiKey = [], Client = [], BytesWritten = 0, TTFB = 0, Duration = 0,
      Path = [], InfoHash = [], OriginalPath = [], SessionID = [], Domain' = [],
      Status = 0, GroupedStatus = 0, Edge = [], Source = [], Role = [], Ads = False\<rparr>"

definition env_ok :: dbenv where
  "env_ok =
     \<lparr>get_err = None, exec_err = (\<lambda>q. None), ping_err = None, begin_err = None,
      prepare_err = (\<lambda>q. None), stmt_exec_err = (\<lambda>i row. None), commit_err = None\<rparr>"

definition env_down :: dbenv where
  "env_down = env_ok\<lparr>get_err := Some (Cause ''connection refused'')\<rparr>"

definition env_second_insert_fails :: dbenv where
  "env_second_insert_fails =
     env_ok\<lparr>stmt_exec_err := (\<lambda>i row. if i = 1 then Some (Cause ''bad row'') else None)\<rparr>"

definition env_no_ddl :: dbenv where
  "env_no_ddl = env_ok\<lparr>exec_err := (\<lambda>q. Some (Cause ''read only''))\<rparr>"

definition writer :: "int \<Rightarrow> bool \<Rightarrow> ClickHouse" where
  "writer B repl =
     \<lparr>batchSize = B, batch = [], mux = False, storeMux = False, init = False,
      nodeName = ''edge-1'', replicated = repl\<rparr>"

section \<open>Properties of the gate\<close>

lemma Unlock_released: "Unlock released = (Returned (), released, [])"
  by (simp add: Unlock_def released_def)

lemma Unlock_New: "Unlock NewAccessLock = (Returned (), released, [CloseC])"
  by (simp add: Unlock_def released_def NewAccessLock_def)

lemma Unlock_n_released: "Unlock_n n released = (replicate n (Returned ()), released, [])"
  by (induction n) (simp_all add: Unlock_released)

text \<open>
  C9. \<open>Unlock\<close> is idempotent. \<open>N \<ge> 1\<close> calls on a new gate all return, none panics
  (so the channel is never closed twice), the channel is closed exactly once, the gate
  ends released, and a call on the released gate changes nothing.
\<close>

theorem Unlock_idempotent:
  "1 \<le> N \<Longrightarrow>
     Unlock_n N NewAccessLock = (replicate N (Returned ()), released, [CloseC])
     \<and> Unlock released = (Returned (), released, [])"
proof -
  assume "1 \<le> N"
  then obtain n where N: "N = Suc n"
    by (cases N) auto
  show ?thesis
    unfolding N by (simp add: Unlock_New Unlock_n_released Unlock_released)
qed

theorem Unlock_idempotent_witness:
  "(1::nat) \<le> 3
   \<and> Unlock_n 3 NewAccessLock = ([Returned (), Returned (), Returned ()], released, [CloseC])
   \<and> Unlock released = (Returned (), released, [])"
  using Unlock_idempotent [of 3] by (simp add: numeral_3_eq_3)

section \<open>Basic facts about store\<close>

lemma store_blocked: "storeMux s \<Longrightarrow> store s env sr = (Blocked, s, [])"
  by (simp add: store_def)

lemma store_empty:
  "\<not> storeMux s \<Longrightarrow> store s env [] = (Returned None, s\<lparr>storeMux := True\<rparr>, [])"
  by (simp add: store_def)

lemma store_returns: "\<not> storeMux s \<Longrightarrow> \<exists>e. fst (store s env sr) = Returned e"
  by (simp add: store_def deferred_def Let_def split: option.split prod.split)

lemma store_not_panicked: "fst (store s env sr) \<noteq> Panicked"
  by (simp add: store_def deferred_def Let_def split: option.split prod.split)

lemma store_blocked_iff: "fst (store s env sr) = Blocked \<longleftrightarrow> storeMux s"
  by (simp add: store_def deferred_def Let_def split: option.split prod.split)

lemma store_down:
  "\<not> storeMux s \<Longrightarrow> sr \<noteq> [] \<Longrightarrow> get_err env = Some e \<Longrightarrow>
     store s env sr = (Returned (Some (Wrapf e ''Failed to get ClickHouse DB'')), s, [EvGet (Some e)])"
  by (simp add: store_def deferred_def)

section \<open>store on an empty batch\<close>

text \<open>
  C3. \<open>store\<close> called with an empty batch is claimed to leave the writer, and
  \<open>storeMux\<close> with it, as it was. Evaluated on the code: the call returns \<open>nil\<close>
  and touches neither the provider nor the handle, but it returns with \<open>storeMux\<close>
  held, so the writer afterwards differs from the writer before, and every later
  call of \<open>store\<close> waits for the mutex and never returns.
\<close>

theorem store_empty_leaks_lock:
  "store (s\<lparr>storeMux := False\<rparr>) env [] = (Returned None, s\<lparr>storeMux := True\<rparr>, [])
   \<and> store (s\<lparr>storeMux := True\<rparr>) env' sr = (Blocked, s\<lparr>storeMux := True\<rparr>, [])
   \<and> s\<lparr>storeMux := True\<rparr> \<noteq> s\<lparr>storeMux := False\<rparr>"
proof -
  have "storeMux (s\<lparr>storeMux := True\<rparr>) \<noteq> storeMux (s\<lparr>storeMux := False\<rparr>)"
    by simp
  then have "s\<lparr>storeMux := True\<rparr> \<noteq> s\<lparr>storeMux := False\<rparr>"
    by metis
  then show ?thesis
    by (simp add: store_empty store_blocked)
qed

section \<open>Close\<close>

text \<open>
  C10. Whenever \<open>Close\<close> returns, the pending batch of the writer is empty,
  whether the flush inside succeeded or failed; and \<open>Close\<close> does return
  whenever \<open>storeMux\<close> is free at the call.
\<close>

theorem Close_empties_batch:
  "(\<not> storeMux s \<longrightarrow> fst (Close s env) = Returned ())
   \<and> (fst (Close s env) = Returned () \<longrightarrow> batch (fst (snd (Close s env))) = [])"
proof -
  obtain r s' evs where st: "store s env (batch s) = (r, s', evs)"
    by (cases "store s env (batch s)") auto
  have "\<not> storeMux s \<Longrightarrow> \<exists>e. r = Returned e"
    using store_returns [of s env "batch s"] st by simp
  then show ?thesis
    by (auto simp: Close_def st split: ret.splits)
qed

theorem Close_empties_batch_witness:
  "\<not> storeMux ((writer 2 False)\<lparr>batch := [zero_record]\<rparr>)
   \<and> fst (store ((writer 2 False)\<lparr>batch := [zero_record]\<rparr>) env_down [zero_record])
       = Returned (Some (Wrapf (Cause ''connection refused'') ''Failed to get ClickHouse DB''))
   \<and> fst (Close ((writer 2 False)\<lparr>batch := [zero_record]\<rparr>) env_down) = Returned ()
   \<and> batch (fst (snd (Close ((writer 2 False)\<lparr>batch := [zero_record]\<rparr>) env_down))) = []"
  using Close_empties_batch [of "(writer 2 False)\<lparr>batch := [zero_record]\<rparr>" env_down]
  by (simp add: writer_def store_down env_down_def)

text \<open>
  C2, as stated: a failing flush inside \<open>Close\<close> is visible in what \<open>Close\<close>
  returns. On a writer with one pending record the flush fails when the provider is
  down and succeeds when the store works, and \<open>Close\<close> returns the same (empty)
  result in both runs.
\<close>

theorem Close_error_counterexample:
  "fst (store ((writer 2 False)\<lparr>batch := [zero_record]\<rparr>) env_down [zero_record])
       = Returned (Some (Wrapf (Cause ''connection refused'') ''Failed to get ClickHouse DB''))
   \<and> fst (store ((writer 2 False)\<lparr>batch := [zero_record]\<rparr>) env_ok [zero_record]) = Returned None
   \<and> fst (Close ((writer 2 False)\<lparr>batch := [zero_record]\<rparr>) env_down) = Returned ()
   \<and> fst (Close ((writer 2 False)\<lparr>batch := [zero_record]\<rparr>) env_ok) = Returned ()"
  by (simp add: writer_def store_down env_down_def Close_def store_def env_ok_def deferred_def makeTable_def)

text \<open>
  C2, amended. \<open>Close\<close> returns exactly when the flush of the pending batch
  returns, it does nothing but that flush, and whatever the flush returned, an error
  or \<open>nil\<close>, \<open>Close\<close> returns no value.
\<close>

theorem Close_drops_error:
  "(fst (Close s env) = Blocked \<longleftrightarrow> fst (store s env (batch s)) = Blocked)
   \<and> snd (snd (Close s env)) = snd (snd (store s env (batch s)))
   \<and> (fst (store s env (batch s)) = Returned e \<longrightarrow> fst (Close s env) = Returned ())"
  by (cases "store s env (batch s)") (auto simp: Close_def split: ret.splits)

theorem Close_drops_error_witness:
  "fst (store ((writer 2 False)\<lparr>batch := [zero_record]\<rparr>) env_down (batch ((writer 2 False)\<lparr>batch := [zero_record]\<rparr>)))
       = Returned (Some (Wrapf (Cause ''connection refused'') ''Failed to get ClickHouse DB''))
   \<and> fst (Close ((writer 2 False)\<lparr>batch := [zero_record]\<rparr>) env_down) = Returned ()"
  using Close_drops_error [of "(writer 2 False)\<lparr>batch := [zero_record]\<rparr>" env_down
      "Some (Wrapf (Cause ''connection refused'') ''Failed to get ClickHouse DB'')"]
  by (simp add: writer_def store_down env_down_def)

section \<open>Add\<close>

lemma flush_goroutine_warns:
  "store s env b = (Returned (Some e), s', evs) \<Longrightarrow>
     flush_goroutine s env b = (Returned (), s', evs @ [EvWarn e])"
  by (simp add: flush_goroutine_def)

text \<open>
  C5. \<open>Add\<close> never returns an error, for any record and any writer; on a writer
  whose \<open>mux\<close> is free and whose batch size is not negative it returns \<open>nil\<close>.
  The instance that follows is a writer on which a flush has just failed because
  the provider could not hand out a handle; there the goroutine logs the wrapped
  error, and \<open>Add\<close> returns \<open>nil\<close>.
\<close>

theorem Add_never_fails:
  "fst (Add s sr) \<noteq> Returned (Some e)
   \<and> (\<not> mux s \<and> 0 \<le> batchSize s \<longrightarrow> fst (Add s sr) = Returned None)"
  by (simp add: Add_def Let_def)

theorem Add_never_fails_witness:
  "fst (store (writer 2 False) env_down [zero_record])
       = Returned (Some (Wrapf (Cause ''connection refused'') ''Failed to get ClickHouse DB''))
   \<and> \<not> mux (fst (snd (store (writer 2 False) env_down [zero_record])))
   \<and> 0 \<le> batchSize (fst (snd (store (writer 2 False) env_down [zero_record])))
   \<and> fst (Add (fst (snd (store (writer 2 False) env_down [zero_record]))) zero_record) = Returned None"
  using Add_never_fails [of "fst (snd (store (writer 2 False) env_down [zero_record]))" zero_record]
  by (simp add: writer_def store_down env_down_def)

section \<open>The loop over the records, makeTable, and the provisioning guard\<close>

lemma exec_rows_events:
  "exec_rows s env i sr = (err, xs) \<Longrightarrow> ev \<in> set xs \<Longrightarrow> \<exists>row r. ev = EvStmtExec row r"
  by (induction sr arbitrary: i err xs) (auto split: option.splits prod.splits)

lemma exec_rows_failed:
  "exec_rows s env i sr = (err, xs) \<Longrightarrow> EvStmtExec row (Some e) \<in> set xs \<Longrightarrow> err = Some e"
  by (induction sr arbitrary: i err xs) (auto split: option.splits prod.splits)

lemma exec_rows_None:
  "exec_rows s env i sr = (None, xs) \<Longrightarrow> xs = map (\<lambda>r. EvStmtExec (row_of s r) None) sr"
  by (induction sr arbitrary: i xs) (auto split: option.splits prod.splits)

lemma exec_rows_inserts:
  "exec_rows s env i sr = (err, xs) \<Longrightarrow> prefix (inserts xs) (map (row_of s) sr)"
  by (induction sr arbitrary: i err xs) (auto split: option.splits prod.splits)

lemma exec_rows_count:
  "exec_rows s env i sr = (err, xs) \<Longrightarrow> count_list xs EvMakeTable = 0"
  by (induction sr arbitrary: i err xs) (auto split: option.splits prod.splits)

lemma makeTable_count: "makeTable s env = (err, mk) \<Longrightarrow> count_list mk EvMakeTable = 1"
  by (auto simp: makeTable_def split: option.splits if_splits)

lemma makeTable_ddl: "makeTable s env = (err, mk) \<Longrightarrow> list_all is_ddl mk"
  by (auto simp: makeTable_def split: option.splits if_splits)

lemma makeTable_failed:
  "makeTable s env = (err, mk) \<Longrightarrow> EvExec q (Some e) \<in> set mk \<Longrightarrow> err = Some e"
  by (auto simp: makeTable_def split: option.splits if_splits)

lemma store_provision:
  "count_list (snd (snd (store s env sr))) EvMakeTable =
     (if \<not> storeMux s \<and> sr \<noteq> [] \<and> get_err env = None \<and> \<not> init s then 1 else 0)"
proof -
  obtain e1 mk where mk: "makeTable s env = (e1, mk)"
    by (cases "makeTable s env") auto
  obtain e2 xs where xs: "exec_rows s env 0 sr = (e2, xs)"
    by (cases "exec_rows s env 0 sr") auto
  have cm: "count_list mk EvMakeTable = 1"
    using mk by (rule makeTable_count)
  have cx: "count_list xs EvMakeTable = 0"
    using xs by (rule exec_rows_count)
  show ?thesis
    by (simp add: store_def deferred_def Let_def mk xs cm cx split: option.split)
qed

lemma store_init:
  "init (fst (snd (store s env sr))) =
     (init s \<or> (\<not> storeMux s \<and> sr \<noteq> [] \<and> get_err env = None))"
  by (auto simp: store_def deferred_def Let_def split: option.split prod.split)

lemma flushes_provision:
  "count_list (snd (flushes s fs)) EvMakeTable \<le> (if init s then 0 else 1)"
proof (induction fs arbitrary: s)
  case Nil
  then show ?case by simp
next
  case (Cons f fs)
  obtain env sr where f: "f = (env, sr)"
    by (cases f) auto
  obtain r s' evs where st: "store s env sr = (r, s', evs)"
    by (cases "store s env sr") auto
  obtain s'' evs' where fl: "flushes s' fs = (s'', evs')"
    by (cases "flushes s' fs") auto
  have a: "count_list evs EvMakeTable =
      (if \<not> storeMux s \<and> sr \<noteq> [] \<and> get_err env = None \<and> \<not> init s then 1 else 0)"
    using store_provision [of s env sr] st by simp
  have b: "init s' = (init s \<or> (\<not> storeMux s \<and> sr \<noteq> [] \<and> get_err env = None))"
    using store_init [of s env sr] st by simp
  have c: "count_list evs' EvMakeTable \<le> (if init s' then 0 else 1)"
    using Cons.IH [of s'] fl by simp
  show ?case
    using a b c by (auto simp: f st fl split: if_splits)
qed

text \<open>
  C4. Over any sequence of flushes on a writer, whatever the store answers,
  \<open>makeTable\<close> is entered at most once; on a writer whose guard has fired it is
  never entered; and a flush that enters \<open>makeTable\<close> leaves the guard fired,
  whether the table creation succeeded or failed.
\<close>

theorem makeTable_at_most_once:
  "count_list (snd (flushes s fs)) EvMakeTable \<le> 1
   \<and> (init s \<longrightarrow> count_list (snd (flushes s fs)) EvMakeTable = 0)
   \<and> (EvMakeTable \<in> set (snd (snd (store w env sr))) \<longrightarrow> init (fst (snd (store w env sr))))"
proof -
  have "count_list (snd (flushes s fs)) EvMakeTable \<le> (if init s then 0 else 1)"
    by (rule flushes_provision)
  moreover have "EvMakeTable \<in> set (snd (snd (store w env sr))) \<Longrightarrow> init (fst (snd (store w env sr)))"
  proof -
    assume "EvMakeTable \<in> set (snd (snd (store w env sr)))"
    then have "count_list (snd (snd (store w env sr))) EvMakeTable \<noteq> 0"
      by (simp add: count_list_0_iff)
    then show ?thesis
      by (simp add: store_provision store_init split: if_splits)
  qed
  ultimately show ?thesis
    by (auto split: if_splits)
qed

theorem makeTable_at_most_once_witness:
  "fst (store (writer 2 False) env_no_ddl [zero_record])
     = Returned (Some (Wrapf (Cause ''read only'') ''Failed to create table''))
   \<and> EvMakeTable \<in> set (snd (snd (store (writer 2 False) env_no_ddl [zero_record])))
   \<and> init (fst (snd (store (writer 2 False) env_no_ddl [zero_record])))
   \<and> count_list (snd (flushes (fst (snd (store (writer 2 False) env_no_ddl [zero_record])))
        [(env_ok, [zero_record]), (env_ok, [zero_record, zero_record])])) EvMakeTable = 0"
  using makeTable_at_most_once [of "fst (snd (store (writer 2 False) env_no_ddl [zero_record]))"
      "[(env_ok, [zero_record]), (env_ok, [zero_record, zero_record])]"
      "writer 2 False" env_no_ddl "[zero_record]"]
  by (simp add: store_def writer_def env_no_ddl_def env_ok_def makeTable_def deferred_def)

section \<open>Every path through store\<close>

lemma inserts_append: "inserts (xs @ ys) = inserts xs @ inserts ys"
  by (induction xs rule: inserts.induct) simp_all

lemma inserts_ddl: "list_all is_ddl xs \<Longrightarrow> inserts xs = []"
  by (induction xs rule: inserts.induct) simp_all

lemma inserts_map: "inserts (map (\<lambda>r. EvStmtExec (f r) None) sr) = map f sr"
  by (induction sr) simp_all

lemma committed_rows_no_commit: "EvCommit None \<notin> set evs \<Longrightarrow> committed_rows buf evs = []"
  by (induction buf evs rule: committed_rows.induct) simp_all

lemma committed_rows_ddl:
  "list_all is_ddl xs \<Longrightarrow> committed_rows buf (xs @ ys) = committed_rows buf ys"
proof (induction xs arbitrary: buf)
  case Nil
  then show ?case by simp
next
  case (Cons a xs)
  then show ?case by (cases a) simp_all
qed

lemma committed_rows_map:
  "committed_rows buf (map (\<lambda>r. EvStmtExec (f r) None) sr @ ys) = committed_rows (buf @ map f sr) ys"
  by (induction sr arbitrary: buf) simp_all

text \<open>
  The result of \<open>store\<close> on a non-empty batch with \<open>storeMux\<close> free, in terms of
  what the guarded \<open>makeTable\<close> and the loop over the records give.
\<close>

lemma store_paths:
  assumes "\<not> storeMux s" and "sr \<noteq> []"
    and "(if init s then (None, []) else makeTable s env) = (e1, mk)"
    and "exec_rows s env 0 sr = (e2, xs)"
  shows "store s env sr =
    (case get_err env of
       Some e \<Rightarrow> (Returned (Some (Wrapf e ''Failed to get ClickHouse DB'')), s, [EvGet (Some e)])
     | None \<Rightarrow>
      (case e1 of
         Some e \<Rightarrow> (Returned (Some (Wrapf e ''Failed to create table'')), s\<lparr>init := True\<rparr>,
                     EvGet None # mk)
       | None \<Rightarrow>
        (case ping_err env of
           Some e \<Rightarrow> (Returned (Some (Wrapf e ''Failed to ping'')), s\<lparr>init := True\<rparr>,
                       EvGet None # mk @ [EvPing (Some e)])
         | None \<Rightarrow>
          (case begin_err env of
             Some e \<Rightarrow> (Returned (Some (Wrapf e ''Failed to begin'')), s\<lparr>init := True\<rparr>,
                         EvGet None # mk @ [EvPing None, EvBegin (Some e)])
           | None \<Rightarrow>
            (case prepare_err env (insert_stmt s) of
               Some e \<Rightarrow> (Returned (Some (Wrapf e ''Failed to prepare'')), s\<lparr>init := True\<rparr>,
                           EvGet None # mk @ [EvPing None, EvBegin None,
                                              EvPrepare (insert_stmt s) (Some e)])
             | None \<Rightarrow>
              (case e2 of
                 Some e \<Rightarrow> (Returned (Some (Wrapf e ''Failed to exec'')), s\<lparr>init := True\<rparr>,
                             EvGet None # mk @ [EvPing None, EvBegin None,
                                                EvPrepare (insert_stmt s) None] @ xs @ [EvStmtClose])
               | None \<Rightarrow>
                (case commit_err env of
                   Some e \<Rightarrow> (Returned (Some (Wrapf e ''Failed to commit'')), s\<lparr>init := True\<rparr>,
                               EvGet None # mk @ [EvPing None, EvBegin None,
                                                  EvPrepare (insert_stmt s) None] @ xs
                                 @ [EvCommit (Some e), EvStmtClose])
                 | None \<Rightarrow> (Returned None, s\<lparr>init := True\<rparr>,
                             EvGet None # mk @ [EvPing None, EvBegin None,
                                                EvPrepare (insert_stmt s) None] @ xs
                               @ [EvCommit None, EvStmtClose]))))))))"
proof -
  have u: "s\<lparr>storeMux := True, init := True, storeMux := False\<rparr> = s\<lparr>init := True\<rparr>"
    "s\<lparr>storeMux := True, storeMux := False\<rparr> = s"
    using assms(1) by simp_all
  show ?thesis
  proof (cases "init s")
    case True
    then show ?thesis
      using assms by (simp add: store_def deferred_def Let_def u split: option.split)
  next
    case False
    then show ?thesis
      using assms by (simp add: store_def deferred_def Let_def u split: option.split)
  qed
qed

lemma guarded_makeTable_ddl:
  "(if init s then (None, []) else makeTable s env) = (e1, mk) \<Longrightarrow> list_all is_ddl mk"
  by (auto split: if_splits dest: makeTable_ddl)

lemma guarded_makeTable_failed:
  "(if init s then (None, []) else makeTable s env) = (e1, mk) \<Longrightarrow>
     EvExec q (Some e) \<in> set mk \<Longrightarrow> e1 = Some e"
  by (auto split: if_splits dest: makeTable_failed)

lemma ddl_cases: "list_all is_ddl mk \<Longrightarrow> ev \<in> set mk \<Longrightarrow> ev = EvMakeTable \<or> (\<exists>q r. ev = EvExec q r)"
  by (induction mk) (auto elim: is_ddl.elims)

text \<open>
  C6. On a non-empty batch, a failed step makes \<open>store\<close> return that step's
  error wrapped with that step's message: for the handle, for either statement of
  \<open>makeTable\<close>, for the ping, for \<open>Begin\<close>, for \<open>Prepare\<close>, for the insert of any
  record and for \<open>Commit\<close>. Whenever \<open>store\<close> does not return \<open>nil\<close>, no
  \<open>Commit\<close> has succeeded and no row is committed. In every case the inserts
  attempted are an initial part of the batch, each record at most once.
\<close>

theorem store_failure_aborts:
  assumes st: "store s env sr = (r, s', evs)" and ne: "sr \<noteq> []"
  shows "(EvGet (Some e) \<in> set evs \<longrightarrow>
            r = Returned (Some (Wrapf e ''Failed to get ClickHouse DB'')))
       \<and> (EvExec q (Some e) \<in> set evs \<longrightarrow>
            r = Returned (Some (Wrapf e ''Failed to create table'')))
       \<and> (EvPing (Some e) \<in> set evs \<longrightarrow> r = Returned (Some (Wrapf e ''Failed to ping'')))
       \<and> (EvBegin (Some e) \<in> set evs \<longrightarrow> r = Returned (Some (Wrapf e ''Failed to begin'')))
       \<and> (EvPrepare q (Some e) \<in> set evs \<longrightarrow>
            r = Returned (Some (Wrapf e ''Failed to prepare'')))
       \<and> (EvStmtExec row (Some e) \<in> set evs \<longrightarrow>
            r = Returned (Some (Wrapf e ''Failed to exec'')))
       \<and> (EvCommit (Some e) \<in> set evs \<longrightarrow> r = Returned (Some (Wrapf e ''Failed to commit'')))
       \<and> (r \<noteq> Returned None \<longrightarrow> EvCommit None \<notin> set evs \<and> committed_rows [] evs = [])
       \<and> prefix (inserts evs) (map (row_of s) sr)"
proof (cases "storeMux s")
  case True
  then have "r = Blocked" and "evs = []"
    using st by (simp_all add: store_blocked)
  then show ?thesis by simp
next
  case False
  obtain e1 mk where mk: "(if init s then (None, []) else makeTable s env) = (e1, mk)"
    by (cases "if init s then (None, []) else makeTable s env") auto
  obtain e2 xs where xs: "exec_rows s env 0 sr = (e2, xs)"
    by (cases "exec_rows s env 0 sr") auto
  have r: "r = fst (store s env sr)" and evs: "evs = snd (snd (store s env sr))"
    using st by simp_all
  note shape = store_paths [OF False ne mk xs]
  have ddl: "list_all is_ddl mk"
    using mk by (rule guarded_makeTable_ddl)
  have mk_only: "\<And>x. EvGet x \<notin> set mk" "\<And>x. EvPing x \<notin> set mk" "\<And>x. EvBegin x \<notin> set mk"
    "\<And>x y. EvPrepare x y \<notin> set mk" "\<And>x y. EvStmtExec x y \<notin> set mk"
    "\<And>x. EvCommit x \<notin> set mk"
    using ddl_cases [OF ddl] by blast+
  have mk_failed: "\<And>q e. EvExec q (Some e) \<in> set mk \<Longrightarrow> e1 = Some e"
    using mk by (rule guarded_makeTable_failed)
  have xs_only: "\<And>x. EvGet x \<notin> set xs" "\<And>x. EvPing x \<notin> set xs" "\<And>x. EvBegin x \<notin> set xs"
    "\<And>x y. EvPrepare x y \<notin> set xs" "\<And>x y. EvExec x y \<notin> set xs"
    "\<And>x. EvCommit x \<notin> set xs"
    using exec_rows_events [OF xs] by blast+
  have xs_failed: "\<And>row e. EvStmtExec row (Some e) \<in> set xs \<Longrightarrow> e2 = Some e"
    using xs by (rule exec_rows_failed)
  have c1: "EvGet (Some e) \<in> set evs \<longrightarrow>
      r = Returned (Some (Wrapf e ''Failed to get ClickHouse DB''))"
    unfolding r evs shape by (simp add: mk_only xs_only split: option.split)
  have c2: "EvExec q (Some e) \<in> set evs \<longrightarrow>
      r = Returned (Some (Wrapf e ''Failed to create table''))"
    unfolding r evs shape
    by (auto simp: mk_only xs_only dest: mk_failed split: option.split)
  have c3: "EvPing (Some e) \<in> set evs \<longrightarrow> r = Returned (Some (Wrapf e ''Failed to ping''))"
    unfolding r evs shape by (simp add: mk_only xs_only split: option.split)
  have c4: "EvBegin (Some e) \<in> set evs \<longrightarrow> r = Returned (Some (Wrapf e ''Failed to begin''))"
    unfolding r evs shape by (simp add: mk_only xs_only split: option.split)
  have c5: "EvPrepare q (Some e) \<in> set evs \<longrightarrow>
      r = Returned (Some (Wrapf e ''Failed to prepare''))"
    unfolding r evs shape by (simp add: mk_only xs_only split: option.split)
  have c6: "EvStmtExec row (Some e) \<in> set evs \<longrightarrow>
      r = Returned (Some (Wrapf e ''Failed to exec''))"
    unfolding r evs shape
    by (auto simp: mk_only xs_only dest: xs_failed split: option.split)
  have c7: "EvCommit (Some e) \<in> set evs \<longrightarrow> r = Returned (Some (Wrapf e ''Failed to commit''))"
    unfolding r evs shape by (simp add: mk_only xs_only split: option.split)
  have c8: "r \<noteq> Returned None \<longrightarrow> EvCommit None \<notin> set evs"
    unfolding r evs shape by (simp add: mk_only xs_only split: option.split)
  have c9: "prefix (inserts evs) (map (row_of s) sr)"
    unfolding r evs shape
    using exec_rows_inserts [OF xs] inserts_ddl [OF ddl]
    by (simp add: inserts_append split: option.split)
  show ?thesis
    using c1 c2 c3 c4 c5 c6 c7 c8 c9 committed_rows_no_commit [of evs "[]"] by blast
qed

theorem store_failure_aborts_witness:
  "store (writer 3 False) env_second_insert_fails [zero_record, zero_record, zero_record] =
     (Returned (Some (Wrapf (Cause ''bad row'') ''Failed to exec'')),
      (writer 3 False)\<lparr>init := True\<rparr>,
      [EvGet None, EvMakeTable, EvExec (create_stmt (writer 3 False)) None, EvPing None,
       EvBegin None, EvPrepare (insert_stmt (writer 3 False)) None,
       EvStmtExec (row_of (writer 3 False) zero_record) None,
       EvStmtExec (row_of (writer 3 False) zero_record) (Some (Cause ''bad row'')),
       EvStmtClose])
   \<and> EvCommit None \<notin> set (snd (snd (store (writer 3 False) env_second_insert_fails
        [zero_record, zero_record, zero_record])))
   \<and> committed_rows [] (snd (snd (store (writer 3 False) env_second_insert_fails
        [zero_record, zero_record, zero_record]))) = []"
proof -
  have w: "\<not> replicated (writer 3 False)" "\<not> storeMux (writer 3 False)" "\<not> init (writer 3 False)"
    by (simp_all add: writer_def)
  have run: "store (writer 3 False) env_second_insert_fails [zero_record, zero_record, zero_record] =
     (Returned (Some (Wrapf (Cause ''bad row'') ''Failed to exec'')),
      (writer 3 False)\<lparr>init := True\<rparr>,
      [EvGet None, EvMakeTable, EvExec (create_stmt (writer 3 False)) None, EvPing None,
       EvBegin None, EvPrepare (insert_stmt (writer 3 False)) None,
       EvStmtExec (row_of (writer 3 False) zero_record) None,
       EvStmtExec (row_of (writer 3 False) zero_record) (Some (Cause ''bad row'')),
       EvStmtClose])"
    by (subst store_paths [where ?e1.0 = None
          and mk = "[EvMakeTable, EvExec (create_stmt (writer 3 False)) None]"
          and ?e2.0 = "Some (Cause ''bad row'')"
          and xs = "[EvStmtExec (row_of (writer 3 False) zero_record) None,
                     EvStmtExec (row_of (writer 3 False) zero_record) (Some (Cause ''bad row''))]"])
       (simp_all add: w makeTable_def env_second_insert_fails_def env_ok_def)
  show ?thesis
    using store_failure_aborts [OF run, where row = "row_of (writer 3 False) zero_record"
        and e = "Cause ''bad row''"]
    by (simp add: run)
qed

section \<open>A successful flush\<close>

lemma store_nil_steps:
  assumes "\<not> storeMux s" and "sr \<noteq> []"
    and "(if init s then (None, []) else makeTable s env) = (e1, mk)"
    and "exec_rows s env 0 sr = (e2, xs)"
  shows "fst (store s env sr) = Returned None \<longrightarrow>
           e1 = None \<and> e2 = None
           \<and> snd (snd (store s env sr)) =
               EvGet None # mk @ [EvPing None, EvBegin None, EvPrepare (insert_stmt s) None]
                 @ xs @ [EvCommit None, EvStmtClose]"
  unfolding store_paths [OF assms] by (simp split: option.split)

lemma row_of_columns:
  "length (row_of s r) = 18 \<and> row_of s r ! 16 = VU8 (if Ads r then 1 else 0)
   \<and> last (row_of s r) = VStr (nodeName s)"
  by (simp add: row_of_def adsUInt_def)

text \<open>
  C7. When \<open>store\<close> returns \<open>nil\<close> on a non-empty batch, what it did is: get the
  handle, the statements of \<open>makeTable\<close> if the guard had not fired, the ping, one
  \<open>Begin\<close>, one \<open>Prepare\<close>, one successful insert per record in the order of the
  batch, one \<open>Commit\<close>. The rows committed are the rows of the batch in order. Every
  row has eighteen columns; the seventeenth is 1 if the record's \<open>Ads\<close> is set and 0
  if not, and the last is the node name of the writer.
\<close>

theorem store_success_inserts:
  assumes st: "store s env sr = (Returned None, s', evs)" and ne: "sr \<noteq> []"
  shows "evs = EvGet None # (if init s then [] else snd (makeTable s env))
                @ [EvPing None, EvBegin None, EvPrepare (insert_stmt s) None]
                @ map (\<lambda>r. EvStmtExec (row_of s r) None) sr
                @ [EvCommit None, EvStmtClose]
       \<and> list_all is_ddl (if init s then [] else snd (makeTable s env))
       \<and> committed_rows [] evs = map (row_of s) sr
       \<and> (\<forall>r \<in> set sr. length (row_of s r) = 18
              \<and> row_of s r ! 16 = VU8 (if Ads r then 1 else 0)
              \<and> last (row_of s r) = VStr (nodeName s))"
proof -
  have free: "\<not> storeMux s"
    using st store_blocked [of s env sr] by auto
  obtain e1 mk where mk: "(if init s then (None, []) else makeTable s env) = (e1, mk)"
    by (cases "if init s then (None, []) else makeTable s env") auto
  obtain e2 xs where xs: "exec_rows s env 0 sr = (e2, xs)"
    by (cases "exec_rows s env 0 sr") auto
  have steps: "e1 = None \<and> e2 = None
      \<and> evs = EvGet None # mk @ [EvPing None, EvBegin None, EvPrepare (insert_stmt s) None]
                @ xs @ [EvCommit None, EvStmtClose]"
    using store_nil_steps [OF free ne mk xs] st by simp
  have xs_eq: "xs = map (\<lambda>r. EvStmtExec (row_of s r) None) sr"
    using xs steps exec_rows_None [of s env 0 sr xs] by simp
  have mk_eq: "mk = (if init s then [] else snd (makeTable s env))"
    using mk by (auto split: if_splits)
  have ddl: "list_all is_ddl mk"
    using mk by (rule guarded_makeTable_ddl)
  have shape: "evs = EvGet None # mk @ [EvPing None, EvBegin None, EvPrepare (insert_stmt s) None]
                @ map (\<lambda>r. EvStmtExec (row_of s r) None) sr @ [EvCommit None, EvStmtClose]"
    using steps xs_eq by simp
  have rows: "committed_rows [] evs = map (row_of s) sr"
    unfolding shape by (simp add: committed_rows_ddl [OF ddl] committed_rows_map)
  show ?thesis
    using shape rows ddl row_of_columns unfolding mk_eq by simp
qed

theorem store_success_inserts_witness:
  "store (writer 2 False) env_ok [zero_record, zero_record\<lparr>Ads := True\<rparr>] =
     (Returned None, (writer 2 False)\<lparr>init := True\<rparr>,
      [EvGet None, EvMakeTable, EvExec (create_stmt (writer 2 False)) None, EvPing None,
       EvBegin None, EvPrepare (insert_stmt (writer 2 False)) None,
       EvStmtExec (row_of (writer 2 False) zero_record) None,
       EvStmtExec (row_of (writer 2 False) (zero_record\<lparr>Ads := True\<rparr>)) None,
       EvCommit None, EvStmtClose])
   \<and> committed_rows [] (snd (snd (store (writer 2 False) env_ok
        [zero_record, zero_record\<lparr>Ads := True\<rparr>]))) =
       [row_of (writer 2 False) zero_record, row_of (writer 2 False) (zero_record\<lparr>Ads := True\<rparr>)]
   \<and> row_of (writer 2 False) zero_record ! 16 = VU8 0
   \<and> row_of (writer 2 False) (zero_record\<lparr>Ads := True\<rparr>) ! 16 = VU8 1
   \<and> last (row_of (writer 2 False) (zero_record\<lparr>Ads := True\<rparr>)) = VStr ''edge-1''"
proof -
  have w: "\<not> replicated (writer 2 False)" "\<not> storeMux (writer 2 False)" "\<not> init (writer 2 False)"
    "nodeName (writer 2 False) = ''edge-1''"
    by (simp_all add: writer_def)
  have run: "store (writer 2 False) env_ok [zero_record, zero_record\<lparr>Ads := True\<rparr>] =
     (Returned None, (writer 2 False)\<lparr>init := True\<rparr>,
      [EvGet None, EvMakeTable, EvExec (create_stmt (writer 2 False)) None, EvPing None,
       EvBegin None, EvPrepare (insert_stmt (writer 2 False)) None,
       EvStmtExec (row_of (writer 2 False) zero_record) None,
       EvStmtExec (row_of (writer 2 False) (zero_record\<lparr>Ads := True\<rparr>)) None,
       EvCommit None, EvStmtClose])"
    by (subst store_paths [where ?e1.0 = None
          and mk = "[EvMakeTable, EvExec (create_stmt (writer 2 False)) None]"
          and ?e2.0 = None
          and xs = "[EvStmtExec (row_of (writer 2 False) zero_record) None,
                     EvStmtExec (row_of (writer 2 False) (zero_record\<lparr>Ads := True\<rparr>)) None]"])
       (simp_all add: w makeTable_def env_ok_def)
  have ads: "Ads (zero_record\<lparr>Ads := True\<rparr>)" "\<not> Ads zero_record"
    by (simp_all add: zero_record_def)
  show ?thesis
    using store_success_inserts [OF run] ads by (simp add: run w)
qed

section \<open>The statements of the two modes\<close>















section \<open>Batches handed to store\<close>








end
